theory Spec2Isabelle
  imports Complex_Main "HOL-Library.Log_Nat"
begin

section \<open>Barrier positions of ozone rotational states (find\_barriers.py)\<close>

text \<open>
  A shallow embedding of \<^verbatim>\<open>src/ozone/find_barriers.py\<close>. Python integers are \<open>int\<close>.
  Python and numpy floats are idealised as \<open>real\<close>: rounding of floating-point results is
  not part of the model. The one place where a float decides an integer result,
  \<^verbatim>\<open>int(J / step)\<close>, is modelled exactly, including its overflow. The polynomial fit of
  numpy, whose result on degenerate data is decided by rounding, is a parameter of the
  model.
\<close>

subsection \<open>Exceptions\<close>

datatype error =
    IndexError
  | ZeroDivisionError
  | OverflowError
  | ValueError
  | TypeError
  | FileNotFoundError
  | WrongSymmetryCode
  | UnknownPathway
  | LinAlgError

subsection \<open>\<^verbatim>\<open>int(a / b)\<close> on Python integers\<close>

text \<open>
  \<^verbatim>\<open>a / b\<close> on two Python integers is true division: the result is the binary64 float
  nearest to the quotient (ties to even), and OverflowError when that float is not finite.
  \<^verbatim>\<open>int(...)\<close> then truncates toward zero. The source divides by 2 and by 4 only; for a
  divisor that is a power of two the nearest float of the quotient is the nearest float of
  the dividend, divided exactly.
\<close>

definition round_binary64 :: "int \<Rightarrow> int" where
  \<comment> \<open>for \<open>n \<ge> 0\<close>: \<open>n\<close> rounded to a 53-bit significand, ties to even\<close>
  "round_binary64 n =
     (if n < 2 ^ 53 then n
      else let s = nat (bitlen n - 53);
               m = n div 2 ^ s;
               r = n mod 2 ^ s;
               h = 2 ^ (s - 1)
           in (if r > h \<or> (r = h \<and> odd m) then m + 1 else m) * 2 ^ s)"

definition int_truediv :: "int \<Rightarrow> int \<Rightarrow> error + int" where
  \<comment> \<open>\<^verbatim>\<open>int(a / b)\<close> for a divisor \<open>b\<close> that is a power of two\<close>
  "int_truediv a b =
     (if b = 0 then Inl ZeroDivisionError
      else let q = round_binary64 \<bar>a\<bar>
           in if \<bar>b\<bar> * 2 ^ 1024 \<le> q then Inl OverflowError
              else Inr (sgn a * sgn b * (q div \<bar>b\<bar>)))"

subsection \<open>Selection of the interpolation nodes\<close>

definition select_interpolating_Js :: "int \<Rightarrow> error + int list" where
  "select_interpolating_Js J =
     (if J \<le> 8 then Inr [4, 8]
      else if J \<ge> 52 then Inr [52, 56]
      else (case int_truediv J 4 of
              Inl e \<Rightarrow> Inl e
            | Inr q \<Rightarrow>
                (let J_low = q * 4;
                     J_high = J_low + 4
                 in Inr [J_low, J_high])))"

definition select_interpolating_Ks :: "int \<Rightarrow> int \<Rightarrow> error + int list" where
  "select_interpolating_Ks J K =
     (let step_K = 2 in
      (case int_truediv J step_K of
         Inl e \<Rightarrow> Inl e
       | Inr q \<Rightarrow>
           (let max_K = min q 20 in
            (if K \<ge> max_K - step_K then Inr [max (max_K - step_K) 0, max_K]
             else (case int_truediv K step_K of
                     Inl e \<Rightarrow> Inl e
                   | Inr k \<Rightarrow>
                       (let K_low = k * step_K;
                            K_high = K_low + step_K
                        in Inr [K_low, K_high]))))))"

subsection \<open>Python sequences\<close>

definition err_bind :: "error + 'a \<Rightarrow> ('a \<Rightarrow> error + 'b) \<Rightarrow> error + 'b" where
  \<comment> \<open>sequencing: an exception raised by the first computation skips the second\<close>
  "err_bind m f = (case m of Inl e \<Rightarrow> Inl e | Inr x \<Rightarrow> f x)"

definition position :: "nat \<Rightarrow> int \<Rightarrow> nat option" where
  \<comment> \<open>the place that index \<open>i\<close> denotes in a sequence of \<open>n\<close> elements: a negative index
      counts from the end\<close>
  "position n i =
     (if 0 \<le> i \<and> i < int n then Some (nat i)
      else if - int n \<le> i \<and> i < 0 then Some (nat (int n + i))
      else None)"

definition item :: "'a list \<Rightarrow> int \<Rightarrow> error + 'a" where
  \<comment> \<open>\<^verbatim>\<open>xs[i]\<close>\<close>
  "item xs i = (case position (length xs) i of None \<Rightarrow> Inl IndexError | Some k \<Rightarrow> Inr (xs ! k))"

definition set_item :: "'a list \<Rightarrow> int \<Rightarrow> 'a \<Rightarrow> error + 'a list" where
  \<comment> \<open>\<^verbatim>\<open>xs[i] = v\<close>\<close>
  "set_item xs i v =
     (case position (length xs) i of None \<Rightarrow> Inl IndexError | Some k \<Rightarrow> Inr (xs[k := v]))"

definition slice :: "'a list \<Rightarrow> int \<Rightarrow> int \<Rightarrow> 'a list" where
  \<comment> \<open>\<^verbatim>\<open>xs[lo:hi]\<close>: bounds are clamped to the sequence, never an error\<close>
  "slice xs lo hi =
     (let n = int (length xs);
          l = (if lo < 0 then max (lo + n) 0 else min lo n);
          h = (if hi < 0 then max (hi + n) 0 else min hi n)
      in take (nat (h - l)) (drop (nat l) xs))"

subsection \<open>Files\<close>

text \<open>
  The directory tree is the database of the scripts. A path is identified by the values
  that are formatted into it. A channels file is a list of lines; of a line only the
  tokens 1 and 2 are read, as an integer and as a float. The files read by
  \<^verbatim>\<open>np.loadtxt(..., skiprows=1, usecols=[0])\<close> are given by their first column below the
  header line. Every function that opens files takes the list of the paths opened so far
  and returns it extended.
\<close>

datatype path =
    GridFile string
  | EnergiesFile string int int int
  | ChannelsFile string int int char

datatype channel_line =
    Tokens int real
  | TooFewTokens
  | BadToken

record files =
  loadtxt_files :: "path \<rightharpoonup> real list"
  channels_files :: "path \<rightharpoonup> channel_line list"

datatype ndarray = Array0 real | Array1 "real list"

definition loadtxt_column :: "real list \<Rightarrow> ndarray" where
  \<comment> \<open>\<^verbatim>\<open>np.loadtxt\<close> squeezes its result: a single data row gives a 0-dimensional array\<close>
  "loadtxt_column rows = (case rows of [x] \<Rightarrow> Array0 x | _ \<Rightarrow> Array1 rows)"

definition load_grid :: "files \<Rightarrow> string \<Rightarrow> path list \<Rightarrow> (error + ndarray) \<times> path list" where
  "load_grid fs root_path opened =
     (let grid_path = GridFile root_path in
      (case loadtxt_files fs grid_path of
         None \<Rightarrow> (Inl FileNotFoundError, opened @ [grid_path])
       | Some rows \<Rightarrow> (Inr (loadtxt_column rows), opened @ [grid_path])))"

subsection \<open>Peak detection and parabolic refinement\<close>

text \<open>
  \<^verbatim>\<open>scipy.signal.find_peaks\<close> and \<^verbatim>\<open>numpy.polynomial.Polynomial.fit\<close> are library code.
  The model of the peak detection follows the documented behaviour of the library and the
  words of the specification of the barrier extraction. The fit is a parameter \<open>fit\<close> of
  every function that reaches it: \<open>fit x y\<close> stands for
  \<^verbatim>\<open>Polynomial.fit(x, y, 2).convert().coef\<close>, the array of the coefficients or the exception
  raised. Nothing is assumed about it: the array may have fewer than three entries, as
  the library drops trailing zero coefficients.

  A numpy float is a real number, or one of \<^verbatim>\<open>inf\<close>, \<^verbatim>\<open>-inf\<close> and \<^verbatim>\<open>nan\<close>, which the model
  does not tell apart. Dividing numpy floats by zero raises nothing and gives one of these.
\<close>

type_synonym fit = "real list \<Rightarrow> real list \<Rightarrow> error + real list"

datatype float64 = Finite real | NonFinite

definition np_divide :: "real \<Rightarrow> real \<Rightarrow> float64" where
  \<comment> \<open>\<^verbatim>\<open>x / y\<close> on numpy floats\<close>
  "np_divide x y = (if y = 0 then NonFinite else Finite (x / y))"

function skip_equal :: "real list \<Rightarrow> nat \<Rightarrow> nat \<Rightarrow> nat" where
  \<comment> \<open>the next sample after a plateau that starts at \<open>i\<close>, at most the last sample\<close>
  "skip_equal x i i_ahead =
     (if i_ahead < length x - 1 \<and> x ! i_ahead = x ! i then skip_equal x i (i_ahead + 1)
      else i_ahead)"
  by pat_completeness auto
termination
  by (relation "measure (\<lambda>(x, i, i_ahead). length x - 1 - i_ahead)") auto

declare skip_equal.simps [simp del]

lemma skip_equal_ge: "i_ahead \<le> skip_equal x i i_ahead"
proof (induction x i i_ahead rule: skip_equal.induct)
  case (1 x i i_ahead)
  show ?case
  proof (cases "i_ahead < length x - 1 \<and> x ! i_ahead = x ! i")
    case True
    with "1.IH" have "i_ahead + 1 \<le> skip_equal x i (i_ahead + 1)" by simp
    moreover from True have "skip_equal x i i_ahead = skip_equal x i (i_ahead + 1)"
      by (subst skip_equal.simps) simp
    ultimately show ?thesis by simp
  next
    case False
    then have "skip_equal x i i_ahead = i_ahead"
      by (subst skip_equal.simps) auto
    then show ?thesis by simp
  qed
qed

function local_maxima_from :: "real list \<Rightarrow> nat \<Rightarrow> nat list" where
  \<comment> \<open>the scan for local maxima from sample \<open>i\<close> on; a flat peak yields its middle sample,
      rounded down\<close>
  "local_maxima_from x i =
     (if i < length x - 1 then
        (if x ! (i - 1) < x ! i then
           (if x ! skip_equal x i (i + 1) < x ! i
            then ((i + (skip_equal x i (i + 1) - 1)) div 2)
                   # local_maxima_from x (skip_equal x i (i + 1) + 1)
            else local_maxima_from x (i + 1))
         else local_maxima_from x (i + 1))
      else [])"
  by pat_completeness auto
termination
proof (relation "measure (\<lambda>(x, i). length x - i)")
  fix x :: "real list" and i :: nat
  assume "i < length x - 1"
  moreover have "i + 1 \<le> skip_equal x i (i + 1)" by (rule skip_equal_ge)
  ultimately show "((x, skip_equal x i (i + 1) + 1), (x, i)) \<in> measure (\<lambda>(x, i). length x - i)"
    by simp
qed auto

declare local_maxima_from.simps [simp del]

definition local_maxima_1d :: "real list \<Rightarrow> nat list" where
  \<comment> \<open>the first and the last sample cannot be maxima\<close>
  "local_maxima_1d x = local_maxima_from x 1"

definition find_peaks :: "real list \<Rightarrow> real \<Rightarrow> real \<Rightarrow> nat list" where
  \<comment> \<open>Modelled from the spec: \<^verbatim>\<open>scipy.signal.find_peaks(x, height=(hmin, hmax))[0]\<close>, library
      code that is not under src/: all local maxima whose value lies within the band
      \<open>[hmin, hmax]\<close>, in index order\<close>
  "find_peaks x hmin hmax = filter (\<lambda>p. hmin \<le> x ! p \<and> x ! p \<le> hmax) (local_maxima_1d x)"

definition interpolate_energies_2d :: "fit \<Rightarrow> real list \<Rightarrow> real list \<Rightarrow> error + float64" where
  "interpolate_energies_2d fit grid energies =
     err_bind (fit grid energies) (\<lambda>parabola_coefs.
     err_bind (item parabola_coefs 1) (\<lambda>b.
     err_bind (item parabola_coefs 2) (\<lambda>c.
       Inr (np_divide (- b / 2) c))))"

definition find_barrier ::
  "fit \<Rightarrow> files \<Rightarrow> string \<Rightarrow> int \<Rightarrow> int \<Rightarrow> int \<Rightarrow> ndarray \<Rightarrow> path list
     \<Rightarrow> (error + float64) \<times> path list" where
  \<comment> \<open>a 0-dimensional array is rejected by \<^verbatim>\<open>find_peaks\<close> (ValueError) and cannot be
      sliced (IndexError); \<^verbatim>\<open>peaks[0]\<close> of an empty array raises IndexError\<close>
  "find_barrier fit fs root_path J K symm grid opened =
     (let energies_path = EnergiesFile root_path J K symm in
      (case loadtxt_files fs energies_path of
         None \<Rightarrow> (Inr (Finite 0), opened)
       | Some rows \<Rightarrow>
           (case loadtxt_column rows of
              Array0 _ \<Rightarrow> Inl ValueError
            | Array1 energies \<Rightarrow>
                (case find_peaks energies (- 5000) 5000 of
                   [] \<Rightarrow> Inl IndexError
                 | p # _ \<Rightarrow>
                     (case grid of
                        Array0 _ \<Rightarrow> Inl IndexError
                      | Array1 g \<Rightarrow>
                          interpolate_energies_2d fit
                            (slice g (int p - 1) (int p + 2))
                            (slice energies (int p - 1) (int p + 2)))),
            opened @ [energies_path])))"

subsection \<open>Known barriers of the reference states\<close>

definition get_symmetry_letter :: "int \<Rightarrow> error + char" where
  "get_symmetry_letter sym_code =
     (if sym_code = 0 then Inr CHR ''S''
      else if sym_code = 1 then Inr CHR ''A''
      else Inl WrongSymmetryCode)"

definition get_channels_file_path :: "string \<Rightarrow> int \<Rightarrow> int \<Rightarrow> int \<Rightarrow> error + path" where
  "get_channels_file_path molecule J K symm =
     err_bind (get_symmetry_letter symm) (\<lambda>symmetry_letter.
       Inr (ChannelsFile molecule J K symmetry_letter))"

fun barrier_positions_loop :: "channel_line list \<Rightarrow> real list \<Rightarrow> error + real list" where
  \<comment> \<open>the loop over the lines of a channels file, from the current \<open>barrier_positions\<close>\<close>
  "barrier_positions_loop [] barrier_positions = Inr barrier_positions"
| "barrier_positions_loop (TooFewTokens # channel_lines) barrier_positions = Inl IndexError"
| "barrier_positions_loop (BadToken # channel_lines) barrier_positions = Inl ValueError"
| "barrier_positions_loop (Tokens group_id barrier_position # channel_lines) barrier_positions =
     (let group_ind = group_id - 1 in
      (case item barrier_positions group_ind of
         Inl e \<Rightarrow> Inl e
       | Inr current \<Rightarrow>
           (case (if current = 0 then set_item barrier_positions group_ind barrier_position
                  else Inr barrier_positions) of
              Inl e \<Rightarrow> Inl e
            | Inr barrier_positions' \<Rightarrow>
                (if list_all (\<lambda>position. position > 0) barrier_positions'
                 then Inr barrier_positions'
                 else barrier_positions_loop channel_lines barrier_positions'))))"

definition load_lowest_barrier_info ::
  "files \<Rightarrow> path \<Rightarrow> path list \<Rightarrow> (error + real list) \<times> path list" where
  "load_lowest_barrier_info fs channels_file_path opened =
     (case channels_files fs channels_file_path of
        None \<Rightarrow> (Inl FileNotFoundError, opened @ [channels_file_path])
      | Some channel_lines \<Rightarrow>
          (barrier_positions_loop channel_lines [0, 0, 0], opened @ [channels_file_path]))"

subsection \<open>Interpolation\<close>

definition linear_interpolation_1d :: "real list \<Rightarrow> real list \<Rightarrow> real \<Rightarrow> error + real" where
  "linear_interpolation_1d point1 point2 query_x =
     err_bind (item point2 1) (\<lambda>y2.
     err_bind (item point1 1) (\<lambda>y1.
     err_bind (item point2 0) (\<lambda>x2.
     err_bind (item point1 0) (\<lambda>x1.
       if x2 - x1 = 0 then Inl ZeroDivisionError
       else Inr ((y2 - y1) / (x2 - x1) * (query_x - x1) + y1)))))"

definition linear_interpolation_2d ::
  "real list \<Rightarrow> real list \<Rightarrow> real list \<Rightarrow> real list \<Rightarrow> error + real" where
  "linear_interpolation_2d point1 point2 point3 query_point =
     err_bind (item point1 0) (\<lambda>p10.
     err_bind (item point1 2) (\<lambda>p12.
     err_bind (item point2 0) (\<lambda>p20.
     err_bind (item point2 2) (\<lambda>p22.
     err_bind (item query_point 0) (\<lambda>q0.
     err_bind (linear_interpolation_1d [p10, p12] [p20, p22] q0) (\<lambda>interp1.
     err_bind (item query_point 1) (\<lambda>q1.
     err_bind (linear_interpolation_1d (slice point1 1 (int (length point1)))
                 (slice point3 1 (int (length point3))) q1) (\<lambda>interp2.
     err_bind (item point1 2) (\<lambda>p12'.
       Inr (interp1 + interp2 - p12'))))))))))"

fun load_known_row ::
  "files \<Rightarrow> string \<Rightarrow> int \<Rightarrow> int list \<Rightarrow> int \<Rightarrow> path list \<Rightarrow> (error + real list list) \<times> path list" where
  \<comment> \<open>the inner loop, over \<open>Ks_interp\<close>\<close>
  "load_known_row fs molecule J_node [] symmetry opened = (Inr [], opened)"
| "load_known_row fs molecule J_node (K_node # Ks) symmetry opened =
     (case get_channels_file_path molecule J_node K_node symmetry of
        Inl e \<Rightarrow> (Inl e, opened)
      | Inr channels_file_path \<Rightarrow>
          (case load_lowest_barrier_info fs channels_file_path opened of
             (Inl e, opened') \<Rightarrow> (Inl e, opened')
           | (Inr lowest_barriers, opened') \<Rightarrow>
               (case load_known_row fs molecule J_node Ks symmetry opened' of
                  (Inl e, opened'') \<Rightarrow> (Inl e, opened'')
                | (Inr row, opened'') \<Rightarrow> (Inr (lowest_barriers # row), opened''))))"

fun load_known ::
  "files \<Rightarrow> string \<Rightarrow> int list \<Rightarrow> int list \<Rightarrow> int \<Rightarrow> path list
     \<Rightarrow> (error + real list list list) \<times> path list" where
  \<comment> \<open>the outer loop, over \<open>Js_interp\<close>\<close>
  "load_known fs molecule [] Ks_interp symmetry opened = (Inr [], opened)"
| "load_known fs molecule (J_node # Js) Ks_interp symmetry opened =
     (case load_known_row fs molecule J_node Ks_interp symmetry opened of
        (Inl e, opened') \<Rightarrow> (Inl e, opened')
      | (Inr row, opened') \<Rightarrow>
          (case load_known fs molecule Js Ks_interp symmetry opened' of
             (Inl e, opened'') \<Rightarrow> (Inl e, opened'')
           | (Inr rows, opened'') \<Rightarrow> (Inr (row # rows), opened'')))"

definition item3 :: "real list list list \<Rightarrow> int \<Rightarrow> int \<Rightarrow> int \<Rightarrow> error + real" where
  \<comment> \<open>\<^verbatim>\<open>xs[i][j][k]\<close>\<close>
  "item3 xs i j k = err_bind (item xs i) (\<lambda>row. err_bind (item row j) (\<lambda>cell. item cell k))"

definition interpolate_channel ::
  "int list \<Rightarrow> int list \<Rightarrow> real list list list \<Rightarrow> int \<Rightarrow> int \<Rightarrow> int \<Rightarrow> error + real" where
  \<comment> \<open>the body of the loop over the channels B, A and S\<close>
  "interpolate_channel Js_interp Ks_interp barrier_positions_known J K i =
     err_bind (item Js_interp 0) (\<lambda>J_low.
     err_bind (item Ks_interp 0) (\<lambda>K_low.
     err_bind (item3 barrier_positions_known 0 0 i) (\<lambda>known1.
     err_bind (item Js_interp 1) (\<lambda>J_high.
     err_bind (item3 barrier_positions_known 1 0 i) (\<lambda>known2.
     err_bind (item Ks_interp 1) (\<lambda>K_high.
     err_bind (item3 barrier_positions_known 0 1 i) (\<lambda>known3.
       linear_interpolation_2d
         [of_int J_low, of_int K_low, known1]
         [of_int J_high, of_int K_low, known2]
         [of_int J_low, of_int K_high, known3]
         [of_int J, of_int K])))))))"

fun map_err :: "('a \<Rightarrow> error + 'b) \<Rightarrow> 'a list \<Rightarrow> error + 'b list" where
  \<comment> \<open>a loop that fills a list and stops at the first exception\<close>
  "map_err f [] = Inr []"
| "map_err f (x # xs) =
     (case f x of
        Inl e \<Rightarrow> Inl e
      | Inr y \<Rightarrow> (case map_err f xs of Inl e \<Rightarrow> Inl e | Inr ys \<Rightarrow> Inr (y # ys)))"

definition interpolate_known ::
  "int list \<Rightarrow> int list \<Rightarrow> real list list list \<Rightarrow> int \<Rightarrow> int \<Rightarrow> error + real list" where
  \<comment> \<open>the loop over \<^verbatim>\<open>range(len(barrier_positions_known[0][0]))\<close>\<close>
  "interpolate_known Js_interp Ks_interp barrier_positions_known J K =
     err_bind (item barrier_positions_known 0) (\<lambda>row0.
     err_bind (item row0 0) (\<lambda>known00.
       map_err (interpolate_channel Js_interp Ks_interp barrier_positions_known J K)
         (map int [0..<length known00])))"

definition interpolate_barrier_positions_JK ::
  "files \<Rightarrow> string \<Rightarrow> int \<Rightarrow> int \<Rightarrow> int \<Rightarrow> path list \<Rightarrow> (error + real list) \<times> path list" where
  "interpolate_barrier_positions_JK fs molecule J K symmetry opened =
     (case select_interpolating_Js J of
        Inl e \<Rightarrow> (Inl e, opened)
      | Inr Js_interp \<Rightarrow>
          (case err_bind (item Js_interp 0) (\<lambda>J_low. select_interpolating_Ks J_low K) of
             Inl e \<Rightarrow> (Inl e, opened)
           | Inr Ks_interp \<Rightarrow>
               (case load_known fs molecule Js_interp Ks_interp symmetry opened of
                  (Inl e, opened') \<Rightarrow> (Inl e, opened')
                | (Inr barrier_positions_known, opened') \<Rightarrow>
                    (interpolate_known Js_interp Ks_interp barrier_positions_known J K,
                     opened'))))"

subsection \<open>The barrier field\<close>

definition get_pathway_index :: "string \<Rightarrow> error + int" where
  "get_pathway_index pathway_letter =
     (if pathway_letter = ''B'' then Inr 0
      else if pathway_letter = ''A'' then Inr 1
      else if pathway_letter = ''S'' then Inr 2
      else Inl UnknownPathway)"

definition set_cell :: "'a list list \<Rightarrow> nat \<Rightarrow> nat \<Rightarrow> 'a \<Rightarrow> 'a list list" where
  \<comment> \<open>\<^verbatim>\<open>barriers[K_ind, J_ind] = v\<close>, for indices within the matrix\<close>
  "set_cell barriers K_ind J_ind v = barriers[K_ind := (barriers ! K_ind)[J_ind := v]]"

text \<open>
  \<^verbatim>\<open>main\<close> fixes the root path, the molecule, the symmetry, the pathway and the lists of
  \<open>J\<close> and \<open>K\<close> in its first lines. \<open>main_with\<close> is its body with these as parameters; the
  state of its loops is the matrix \<open>barriers\<close>, an array of numpy floats, and the list of the
  paths opened so far. The result is the matrix that \<^verbatim>\<open>np.savetxt\<close> is given.
\<close>

definition main_cell ::
  "fit \<Rightarrow> files \<Rightarrow> string \<Rightarrow> string \<Rightarrow> int \<Rightarrow> string \<Rightarrow> ndarray \<Rightarrow> nat \<Rightarrow> int \<Rightarrow> nat \<Rightarrow> int
     \<Rightarrow> float64 list list \<times> path list \<Rightarrow> error + float64 list list \<times> path list" where
  \<comment> \<open>the body of the inner loop\<close>
  "main_cell fit fs root_path molecule symm pathway grid J_ind J K_ind K st =
     (case st of (barriers, opened) \<Rightarrow>
        (if K > J then Inr (barriers, opened)
         else if molecule = ''666'' then
           (case find_barrier fit fs root_path J K symm grid opened of
              (Inl e, opened') \<Rightarrow> Inl e
            | (Inr barrier, opened') \<Rightarrow> Inr (set_cell barriers K_ind J_ind barrier, opened'))
         else
           (let K_sym = (if K mod 2 = 0 then symm else 1 - symm) in
            (case interpolate_barrier_positions_JK fs molecule J K K_sym opened of
               (Inl e, opened') \<Rightarrow> Inl e
             | (Inr barrier_positions, opened') \<Rightarrow>
                 (case err_bind (get_pathway_index pathway) (item barrier_positions) of
                    Inl e \<Rightarrow> Inl e
                  | Inr barrier \<Rightarrow>
                      Inr (set_cell barriers K_ind J_ind (Finite barrier), opened'))))))"

fun main_K_loop ::
  "fit \<Rightarrow> files \<Rightarrow> string \<Rightarrow> string \<Rightarrow> int \<Rightarrow> string \<Rightarrow> ndarray \<Rightarrow> nat \<Rightarrow> int
     \<Rightarrow> (nat \<times> int) list
     \<Rightarrow> float64 list list \<times> path list \<Rightarrow> error + float64 list list \<times> path list" where
  "main_K_loop fit fs root_path molecule symm pathway grid J_ind J [] st = Inr st"
| "main_K_loop fit fs root_path molecule symm pathway grid J_ind J ((K_ind, K) # Ks) st =
     (case main_cell fit fs root_path molecule symm pathway grid J_ind J K_ind K st of
        Inl e \<Rightarrow> Inl e
      | Inr st' \<Rightarrow> main_K_loop fit fs root_path molecule symm pathway grid J_ind J Ks st')"

fun main_J_loop ::
  "fit \<Rightarrow> files \<Rightarrow> string \<Rightarrow> string \<Rightarrow> int \<Rightarrow> string \<Rightarrow> ndarray
     \<Rightarrow> (nat \<times> int) list \<Rightarrow> (nat \<times> int) list
     \<Rightarrow> float64 list list \<times> path list \<Rightarrow> error + float64 list list \<times> path list" where
  "main_J_loop fit fs root_path molecule symm pathway grid [] Ks st = Inr st"
| "main_J_loop fit fs root_path molecule symm pathway grid ((J_ind, J) # Js) Ks st =
     (case main_K_loop fit fs root_path molecule symm pathway grid J_ind J Ks st of
        Inl e \<Rightarrow> Inl e
      | Inr st' \<Rightarrow> main_J_loop fit fs root_path molecule symm pathway grid Js Ks st')"

definition main_with ::
  "fit \<Rightarrow> files \<Rightarrow> string \<Rightarrow> string \<Rightarrow> int \<Rightarrow> string \<Rightarrow> int list \<Rightarrow> int list
     \<Rightarrow> error + float64 list list \<times> path list" where
  "main_with fit fs root_path molecule symm pathway Js Ks =
     (let barriers = replicate (length Ks) (replicate (length Js) (Finite 0)) in
      (case load_grid fs root_path [] of
         (Inl e, opened) \<Rightarrow> Inl e
       | (Inr grid, opened) \<Rightarrow>
           main_J_loop fit fs root_path molecule symm pathway grid
             (zip [0..<length Js] Js) (zip [0..<length Ks] Ks) (barriers, opened)))"

definition main :: "fit \<Rightarrow> files \<Rightarrow> error + float64 list list \<times> path list" where
  "main fit fs =
     main_with fit fs ''/global/cfs/cdirs/m409/gaidai/ozone/dev/666'' ''868'' 0 ''S''
       (map (\<lambda>n. 2 * int n) [0..<17] @ map (\<lambda>n. 36 + 4 * int n) [0..<8])
       (map (\<lambda>n. 2 * int n) [0..<11])"

subsection \<open>The specification of the channels file\<close>

text \<open>
  A well-formed channels file is a sequence of records, each with a channel-group
  identifier and a barrier position.
\<close>

definition channels_file_lines :: "(int \<times> real) list \<Rightarrow> channel_line list" where
  "channels_file_lines records = map (\<lambda>(group_id, v). Tokens group_id v) records"

definition first_value :: "(real \<Rightarrow> bool) \<Rightarrow> (int \<times> real) list \<Rightarrow> int \<Rightarrow> real" where
  \<comment> \<open>the first value with property \<open>P\<close> among the records of a channel, in file order,
      and 0 when the channel has none\<close>
  "first_value P records channel =
     (case find (\<lambda>(group_id, v). group_id = channel \<and> P v) records of
        None \<Rightarrow> 0
      | Some (group_id, v) \<Rightarrow> v)"

definition spec_lowest_barrier_info :: "(int \<times> real) list \<Rightarrow> real list" where
  \<comment> \<open>the words of the specification: for each of the 3 channels keep the first strictly
      positive value seen; channels never seeing a positive value remain 0\<close>
  "spec_lowest_barrier_info records = map (first_value (\<lambda>v. 0 < v) records) [1, 2, 3]"

subsection \<open>Closed form, loop invariant and example data\<close>

definition planar :: "int \<Rightarrow> int \<Rightarrow> int \<Rightarrow> int \<Rightarrow> int \<Rightarrow> int \<Rightarrow> real \<Rightarrow> real \<Rightarrow> real \<Rightarrow> real" where
  \<comment> \<open>the value of the planar interpolation at \<open>(J, K)\<close> from the values \<open>z1\<close> at
      \<open>(J_low, K_low)\<close>, \<open>z2\<close> at \<open>(J_high, K_low)\<close> and \<open>z3\<close> at \<open>(J_low, K_high)\<close>\<close>
  "planar J_low J_high K_low K_high J K z1 z2 z3 =
     (z2 - z1) / (of_int J_high - of_int J_low) * (of_int J - of_int J_low) + z1
     + ((z3 - z1) / (of_int K_high - of_int K_low) * (of_int K - of_int K_low) + z1) - z1"

definition example_channels :: "path \<rightharpoonup> channel_line list" where
  \<comment> \<open>channels files of three corners of the bracket of \<open>J = 10\<close>, \<open>K = 0\<close>\<close>
  "example_channels =
     [ChannelsFile ''868'' 8 0 CHR ''S'' \<mapsto> [Tokens 1 1, Tokens 2 2, Tokens 3 3],
      ChannelsFile ''868'' 8 2 CHR ''S'' \<mapsto> [Tokens 1 2, Tokens 2 3, Tokens 3 4],
      ChannelsFile ''868'' 12 0 CHR ''S'' \<mapsto> [Tokens 1 5, Tokens 2 5, Tokens 3 5]]"

definition field_invariant :: "int list \<Rightarrow> int list \<Rightarrow> float64 list list \<Rightarrow> bool" where
  \<comment> \<open>the invariant of the loops of \<open>main_with\<close>: the matrix keeps its shape, and the cells
      of the states with \<open>K > J\<close> hold 0\<close>
  "field_invariant Js Ks barriers \<longleftrightarrow>
     length barriers = length Ks
     \<and> (\<forall>row \<in> set barriers. length row = length Js)
     \<and> (\<forall>K_ind < length Ks. \<forall>J_ind < length Js.
           Ks ! K_ind > Js ! J_ind \<longrightarrow> barriers ! K_ind ! J_ind = Finite 0)"

definition example_fit :: fit where
  \<comment> \<open>an instance of the parameter for the examples: for every input the coefficients of
      \<open>- 31 + 24*x - 4*x^2\<close>, the parabola through \<open>(2, 1)\<close>, \<open>(3, 5)\<close> and \<open>(4, 1)\<close>\<close>
  "example_fit x y = Inr [- 31, 24, - 4]"

definition example_direct_files :: files where
  \<comment> \<open>a grid and the energy curve of the state \<open>J = 0\<close>, \<open>K = 0\<close>, symmetry 0\<close>
  "example_direct_files =
     \<lparr>loadtxt_files = [GridFile ''root'' \<mapsto> [1, 2, 3, 4, 5],
                       EnergiesFile ''root'' 0 0 0 \<mapsto> [0, 1, 5, 1, 0]],
      channels_files = Map.empty\<rparr>"

section \<open>Properties\<close>

subsection \<open>Integer division through a float\<close>

lemma round_binary64_small: "n < 2 ^ 53 \<Longrightarrow> round_binary64 n = n"
  by (simp add: round_binary64_def)

lemma round_binary64_ge_power:
  assumes "53 \<le> k" and "2 ^ k \<le> n"
  shows "2 ^ k \<le> round_binary64 n"
proof -
  define s where "s = nat (bitlen n - 53)"
  define m where "m = n div 2 ^ s"
  have "(0::int) < 2 ^ k" by simp
  with assms(2) have npos: "0 < n" by linarith
  have lo: "2 ^ nat (bitlen n - 1) \<le> n" and hi: "n < 2 ^ nat (bitlen n)"
    using bitlen_bounds [OF npos] by simp_all
  have "(2::int) ^ k < 2 ^ nat (bitlen n)" using assms(2) hi by linarith
  then have k_lt: "k < nat (bitlen n)"
    using power_less_imp_less_exp [of "2::int" k "nat (bitlen n)"] by simp
  with assms(1) have bl: "nat (bitlen n - 1) = 52 + s" and ks: "k \<le> 52 + s"
    by (simp_all add: s_def nat_diff_distrib)
  have "(2::int) ^ 53 \<le> 2 ^ k" using assms(1) by (rule power_increasing) simp
  with assms(2) have not_small: "\<not> n < 2 ^ 53" by linarith
  have "(2::int) ^ 52 * 2 ^ s \<le> n" using lo by (simp only: bl power_add)
  then have "(2::int) ^ 52 * 2 ^ s div 2 ^ s \<le> m"
    unfolding m_def by (rule zdiv_mono1) simp
  then have m52: "(2::int) ^ 52 \<le> m" by simp
  have "(2::int) ^ k \<le> 2 ^ (52 + s)" using ks by (rule power_increasing) simp
  also have "\<dots> = 2 ^ 52 * 2 ^ s" by (simp only: power_add)
  also have "\<dots> \<le> m * 2 ^ s" using m52 by (rule mult_right_mono) simp
  finally have a: "(2::int) ^ k \<le> m * 2 ^ s" .
  have "m * 2 ^ s \<le> (m + 1) * 2 ^ s" by (rule mult_right_mono) simp_all
  with a have b: "(2::int) ^ k \<le> (m + 1) * 2 ^ s" by linarith
  show ?thesis
    unfolding round_binary64_def Let_def s_def [symmetric] m_def [symmetric]
    using not_small a b by (simp only: if_False split: if_split) blast
qed

lemma round_binary64_large: "2 ^ 53 \<le> n \<Longrightarrow> 2 ^ 53 \<le> round_binary64 n"
  by (rule round_binary64_ge_power) simp_all

lemma round_binary64_finite:
  assumes "0 \<le> n" and "n < 2 ^ 1025 - 2 ^ 971"
  shows "round_binary64 n < 2 ^ 1025"
proof (cases "n < 2 ^ 53")
  case True
  then show ?thesis by (simp add: round_binary64_def)
next
  case False
  define s where "s = nat (bitlen n - 53)"
  define m where "m = n div 2 ^ s"
  define r where "r = n mod 2 ^ s"
  define h :: int where "h = 2 ^ (s - 1)"
  define u where "u = (if r > h \<or> (r = h \<and> odd m) then m + 1 else m)"
  from False have n53: "2 ^ 53 \<le> n" by simp
  then have npos: "0 < n" by simp
  have lo: "2 ^ nat (bitlen n - 1) \<le> n" and hi: "n < 2 ^ nat (bitlen n)"
    using bitlen_bounds [OF npos] by simp_all
  have "(2::int) ^ 53 < 2 ^ nat (bitlen n)" using n53 hi by linarith
  then have "53 < nat (bitlen n)"
    using power_less_imp_less_exp [of "2::int" 53 "nat (bitlen n)"] by simp
  then have bl: "nat (bitlen n) = 53 + s" and bl1: "nat (bitlen n - 1) = 52 + s"
    by (simp_all add: s_def nat_diff_distrib)
  have hi': "n < 2 ^ 53 * 2 ^ s" using hi by (simp add: bl power_add)
  have lo': "2 ^ 52 * 2 ^ s \<le> n" using lo by (simp add: bl1 power_add)
  have n_eq: "n = m * 2 ^ s + r" unfolding m_def r_def by (rule div_mult_mod_eq [symmetric])
  have r0: "0 \<le> r" by (simp add: r_def)
  have "m * 2 ^ s < 2 ^ 53 * 2 ^ s" using hi' n_eq r0 by linarith
  then have m_lt: "m < 2 ^ 53" by (simp only: mult_less_cancel_right) simp
  have "(2::int) ^ (52 + s) < 2 ^ 1025"
    using lo' assms(2) by (simp add: power_add)
  then have "52 + s < 1025"
    using power_less_imp_less_exp [of "2::int" "52 + s" 1025] by simp
  then have s_le: "s \<le> 972" by simp
  have R: "round_binary64 n = u * 2 ^ s"
    using False by (simp add: round_binary64_def Let_def u_def h_def r_def m_def s_def)
  have u_le: "u \<le> m + 1" by (simp add: u_def)
  show ?thesis
  proof (cases "s = 972")
    case False
    with s_le have "53 + s \<le> 1024" by simp
    then have le: "(2::int) ^ (53 + s) \<le> 2 ^ 1024" by (rule power_increasing) simp
    have "u * 2 ^ s \<le> 2 ^ 53 * 2 ^ s"
      using u_le m_lt by (intro mult_right_mono) simp_all
    also have "\<dots> = 2 ^ (53 + s)" by (simp only: power_add)
    also note le
    also have "(2::int) ^ 1024 < 2 ^ 1025" by simp
    finally show ?thesis unfolding R .
  next
    case True
    have hv: "h = 2 ^ 971" by (simp add: h_def True)
    show ?thesis
    proof (cases "m \<le> 2 ^ 53 - 2")
      case True
      with u_le have "u \<le> 2 ^ 53 - 1" by simp
      then have "u * 2 ^ s \<le> (2 ^ 53 - 1) * 2 ^ s" by (intro mult_right_mono) simp_all
      then show ?thesis unfolding R \<open>s = 972\<close> by simp
    next
      case False
      with m_lt have mv: "m = 2 ^ 53 - 1" by simp
      have "r < h" using assms(2) n_eq unfolding mv hv \<open>s = 972\<close> by simp
      then have "u = m" by (simp add: u_def)
      then show ?thesis unfolding R \<open>s = 972\<close> mv by simp
    qed
  qed
qed

lemma int_truediv_small:
  "0 \<le> a \<Longrightarrow> a < 2 ^ 53 \<Longrightarrow> 0 < b \<Longrightarrow> int_truediv a b = Inr (a div b)"
  by (auto simp add: int_truediv_def round_binary64_small Let_def sgn_if)

lemma int_truediv_2_overflow: "2 ^ 1025 \<le> a \<Longrightarrow> int_truediv a 2 = Inl OverflowError"
proof -
  assume a: "2 ^ 1025 \<le> a"
  moreover have "(0::int) < 2 ^ 1025" by simp
  ultimately have "0 \<le> a" by linarith
  moreover have "2 ^ 1025 \<le> round_binary64 a" using _ a by (rule round_binary64_ge_power) simp
  ultimately show ?thesis by (simp add: int_truediv_def)
qed

lemma int_truediv_2_error: "int_truediv a 2 = Inl e \<Longrightarrow> e = OverflowError"
  by (simp add: int_truediv_def Let_def split: if_splits)

lemma min_int_truediv_2:
  assumes "0 \<le> J" "int_truediv J 2 = Inr q"
  shows "min q 20 = min (J div 2) 20"
proof (cases "J < 2 ^ 53")
  case True
  with assms show ?thesis by (simp add: int_truediv_small)
next
  case False
  then have J53: "2 ^ 53 \<le> J" by simp
  then have big: "2 ^ 53 \<le> round_binary64 J" by (rule round_binary64_large)
  from J53 have "(0::int) < J" by simp
  with assms(2) have "q = round_binary64 J div 2"
    by (simp add: int_truediv_def Let_def split: if_splits)
  with big have "20 \<le> q" by simp
  moreover from False have "20 \<le> J div 2" by simp
  ultimately show ?thesis by simp
qed

lemma int_truediv_2_returns:
  assumes "0 \<le> J" and "J < 2 ^ 1025 - 2 ^ 971"
  shows "\<exists>q. int_truediv J 2 = Inr q \<and> min q 20 = min (J div 2) 20"
proof -
  have "round_binary64 J < 2 ^ 1025" using assms by (rule round_binary64_finite)
  then have "\<exists>q. int_truediv J 2 = Inr q"
    using assms(1) by (simp add: int_truediv_def Let_def)
  then show ?thesis using min_int_truediv_2 [OF assms(1)] by blast
qed

subsection \<open>Selection of the interpolation nodes\<close>

text \<open>
  Claim C4. For every non-negative \<open>J\<close>, \<open>select_interpolating_Js J\<close> returns a pair
  \<open>[J_low, J_high]\<close> with \<open>J_high - J_low = 4\<close>, and for \<open>8 < J < 52\<close> the pair brackets
  \<open>J\<close>.
\<close>

theorem select_interpolating_Js_bracket:
  "0 \<le> J \<Longrightarrow>
   \<exists>J_low J_high. select_interpolating_Js J = Inr [J_low, J_high] \<and> J_high - J_low = 4 \<and>
      (8 < J \<and> J < 52 \<longrightarrow> J_low \<le> J \<and> J \<le> J_high)"
proof -
  assume "0 \<le> J"
  consider "J \<le> 8" | "52 \<le> J" | "8 < J" "J < 52" by linarith
  then show ?thesis
  proof cases
    case 1
    then show ?thesis by (simp add: select_interpolating_Js_def)
  next
    case 2
    then show ?thesis by (simp add: select_interpolating_Js_def)
  next
    case 3
    then have "int_truediv J 4 = Inr (J div 4)"
      by (intro int_truediv_small) simp_all
    with 3 show ?thesis
      by (simp add: select_interpolating_Js_def Let_def) presburger
  qed
qed

theorem select_interpolating_Js_bracket_witness:
  "\<exists>J_low J_high. select_interpolating_Js 10 = Inr [J_low, J_high] \<and> J_high - J_low = 4 \<and>
     J_low \<le> 10 \<and> 10 \<le> J_high"
  using select_interpolating_Js_bracket [of 10] by simp

text \<open>
  Claim C1, amended. For \<open>0 \<le> K \<le> J\<close> with \<open>4 \<le> J\<close>, and \<open>J\<close> below the bound from which
  \<^verbatim>\<open>J / 2\<close> overflows a float, \<open>select_interpolating_Ks J K\<close> returns a pair
  \<open>[K_low, K_high]\<close> with \<open>K_high - K_low = 2\<close>, \<open>0 \<le> K_low\<close> and
  \<open>K_high \<le> min (J div 2) 20\<close>. As stated, for all \<open>0 \<le> K \<le> J\<close>, the claim fails: for
  \<open>J < 4\<close> the lower node is clamped to 0 and the bracket is narrower than 2, and for a
  huge \<open>J\<close> the function raises OverflowError.
\<close>

theorem select_interpolating_Ks_bracket:
  assumes "4 \<le> J" and "J < 2 ^ 1025 - 2 ^ 971" and "0 \<le> K" and "K \<le> J"
  shows "\<exists>K_low K_high. select_interpolating_Ks J K = Inr [K_low, K_high] \<and>
           K_high - K_low = 2 \<and> 0 \<le> K_low \<and> K_high \<le> min (J div 2) 20"
proof -
  from assms obtain q where q: "int_truediv J 2 = Inr q" and m: "min q 20 = min (J div 2) 20"
    using int_truediv_2_returns [of J] by auto
  define max_K where "max_K = min (J div 2) 20"
  have M2: "2 \<le> max_K" using assms(1) by (simp add: max_K_def)
  show ?thesis
  proof (cases "K \<ge> max_K - 2")
    case True
    then show ?thesis
      using M2 by (simp add: select_interpolating_Ks_def q m Let_def max_K_def [symmetric])
  next
    case False
    then have "K < 18" by (simp add: max_K_def)
    then have k: "int_truediv K 2 = Inr (K div 2)"
      using assms(3) by (intro int_truediv_small) simp_all
    from False assms(3) show ?thesis
      by (simp add: select_interpolating_Ks_def q m k Let_def max_K_def [symmetric])
  qed
qed

theorem select_interpolating_Ks_bracket_witness:
  "\<exists>K_low K_high. select_interpolating_Ks 52 7 = Inr [K_low, K_high] \<and>
     K_high - K_low = 2 \<and> 0 \<le> K_low \<and> K_high \<le> min (52 div 2) 20"
  by (rule select_interpolating_Ks_bracket) simp_all

theorem select_interpolating_Ks_width_counterexample:
  "select_interpolating_Ks 0 0 = Inr [0, 0] \<and> select_interpolating_Ks (2 ^ 1025) 0 = Inl OverflowError"
  by (simp add: select_interpolating_Ks_def int_truediv_2_overflow)
    (simp add: int_truediv_def round_binary64_def)

lemma select_interpolating_Js_nodes:
  "\<exists>J_low. select_interpolating_Js J = Inr [J_low, J_low + 4] \<and> 4 \<le> J_low \<and> J_low \<le> 52"
proof -
  consider "J \<le> 8" | "52 \<le> J" | "8 < J" "J < 52" by linarith
  then show ?thesis
  proof cases
    case 3
    then have "int_truediv J 4 = Inr (J div 4)"
      by (intro int_truediv_small) simp_all
    moreover from 3 have "1 \<le> J div 4" and "J div 4 \<le> 13" by presburger+
    ultimately show ?thesis
      using 3 by (simp add: select_interpolating_Js_def Let_def)
  qed (simp_all add: select_interpolating_Js_def)
qed

lemma select_interpolating_Ks_nodes:
  assumes "4 \<le> J_low" and "J_low \<le> 52"
  shows "select_interpolating_Ks J_low K = Inl OverflowError
         \<or> (\<exists>K_low. select_interpolating_Ks J_low K = Inr [K_low, K_low + 2])"
proof -
  have q: "int_truediv J_low 2 = Inr (J_low div 2)"
    using assms by (intro int_truediv_small) simp_all
  define max_K where "max_K = min (J_low div 2) 20"
  have M2: "2 \<le> max_K" using assms(1) by (simp add: max_K_def)
  show ?thesis
  proof (cases "K \<ge> max_K - 2")
    case True
    then show ?thesis
      using M2 by (simp add: select_interpolating_Ks_def q Let_def max_K_def [symmetric])
  next
    case False
    show ?thesis
    proof (cases "int_truediv K 2")
      case (Inl e)
      then have "e = OverflowError" by (rule int_truediv_2_error)
      with Inl False show ?thesis
        by (simp add: select_interpolating_Ks_def q Let_def max_K_def [symmetric])
    next
      case (Inr k)
      with False show ?thesis
        by (simp add: select_interpolating_Ks_def q Let_def max_K_def [symmetric])
    qed
  qed
qed

subsection \<open>The scan of a channels file\<close>

lemma first_value_Nil [simp]: "first_value P [] c = 0"
  by (simp add: first_value_def)

lemma first_value_Cons [simp]:
  "first_value P ((g, v) # records) c = (if g = c \<and> P v then v else first_value P records c)"
  by (simp add: first_value_def)

lemma barrier_positions_loop_first_nonzero:
  assumes "\<forall>(g, v) \<in> set records. g \<in> {1, 2, 3}"
  shows "barrier_positions_loop (channels_file_lines records) [b1, b2, b3] =
     Inr [if b1 \<noteq> 0 then b1 else first_value (\<lambda>v. v \<noteq> 0) records 1,
          if b2 \<noteq> 0 then b2 else first_value (\<lambda>v. v \<noteq> 0) records 2,
          if b3 \<noteq> 0 then b3 else first_value (\<lambda>v. v \<noteq> 0) records 3]"
  using assms
proof (induction records arbitrary: b1 b2 b3)
  case Nil
  then show ?case by (simp add: channels_file_lines_def)
next
  case (Cons r records)
  obtain g v where r: "r = (g, v)" by (cases r)
  from Cons.prems r have g: "g = 1 \<or> g = 2 \<or> g = 3" by simp
  from Cons.prems have rest: "\<forall>(g, v) \<in> set records. g \<in> {1, 2, 3}" by simp
  note IH = Cons.IH [OF rest, unfolded channels_file_lines_def]
  from g show ?case
  proof (elim disjE)
    assume "g = 1"
    then show ?thesis
      by (simp add: r channels_file_lines_def item_def set_item_def position_def IH)
  next
    assume "g = 2"
    then show ?thesis
      by (simp add: r channels_file_lines_def item_def set_item_def position_def IH)
  next
    assume "g = 3"
    then show ?thesis
      by (simp add: r channels_file_lines_def item_def set_item_def position_def IH)
  qed
qed

lemma first_value_nonneg:
  "\<forall>(g, v) \<in> set records. 0 \<le> v \<Longrightarrow>
   first_value (\<lambda>v. v \<noteq> 0) records c = first_value (\<lambda>v. 0 < v) records c"
  by (induction records) auto

text \<open>
  Claim C2, amended. For every channels file whose records carry a channel-group
  identifier in \<open>{1, 2, 3}\<close>, \<open>load_lowest_barrier_info\<close> returns, for each of the 3
  channels, the first value different from 0 that appears for that channel in file order,
  and 0 for a channel without such a value. On a file without negative values this is the
  first strictly positive value, as the specification says. As stated the claim fails: a
  negative value is kept, and a later positive value of the same channel is ignored.
\<close>

theorem load_lowest_barrier_info_first_nonzero:
  assumes "channels_files fs channels_file_path = Some (channels_file_lines records)"
    and "\<forall>(group_id, v) \<in> set records. group_id \<in> {1, 2, 3}"
  shows "load_lowest_barrier_info fs channels_file_path opened =
           (Inr [first_value (\<lambda>v. v \<noteq> 0) records 1,
                 first_value (\<lambda>v. v \<noteq> 0) records 2,
                 first_value (\<lambda>v. v \<noteq> 0) records 3],
            opened @ [channels_file_path])
         \<and> ((\<forall>(group_id, v) \<in> set records. 0 \<le> v) \<longrightarrow>
              load_lowest_barrier_info fs channels_file_path opened =
                (Inr (spec_lowest_barrier_info records), opened @ [channels_file_path]))"
proof -
  have loop: "barrier_positions_loop (channels_file_lines records) [0, 0, 0] =
      Inr [first_value (\<lambda>v. v \<noteq> 0) records 1,
           first_value (\<lambda>v. v \<noteq> 0) records 2,
           first_value (\<lambda>v. v \<noteq> 0) records 3]"
    using barrier_positions_loop_first_nonzero [OF assms(2), of 0 0 0] by simp
  then have code: "load_lowest_barrier_info fs channels_file_path opened =
           (Inr [first_value (\<lambda>v. v \<noteq> 0) records 1,
                 first_value (\<lambda>v. v \<noteq> 0) records 2,
                 first_value (\<lambda>v. v \<noteq> 0) records 3],
            opened @ [channels_file_path])"
    by (simp add: load_lowest_barrier_info_def assms(1))
  then show ?thesis by (simp add: first_value_nonneg spec_lowest_barrier_info_def)
qed

theorem load_lowest_barrier_info_first_nonzero_witness:
  "load_lowest_barrier_info
     \<lparr>loadtxt_files = Map.empty,
      channels_files = [ChannelsFile ''868'' 8 0 CHR ''S'' \<mapsto>
        channels_file_lines [(2, 0), (1, 7), (2, 4), (1, 9), (2, 5)]]\<rparr>
     (ChannelsFile ''868'' 8 0 CHR ''S'') []
   = (Inr [7, 4, 0], [ChannelsFile ''868'' 8 0 CHR ''S''])"
  using load_lowest_barrier_info_first_nonzero
    [of "\<lparr>loadtxt_files = Map.empty,
      channels_files = [ChannelsFile ''868'' 8 0 CHR ''S'' \<mapsto>
        channels_file_lines [(2, 0), (1, 7), (2, 4), (1, 9), (2, 5)]]\<rparr>"
      "ChannelsFile ''868'' 8 0 CHR ''S''" "[(2, 0), (1, 7), (2, 4), (1, 9), (2, 5)]" "[]"]
  by simp

theorem load_lowest_barrier_info_negative_counterexample:
  "load_lowest_barrier_info
     \<lparr>loadtxt_files = Map.empty,
      channels_files = [ChannelsFile ''868'' 8 0 CHR ''S'' \<mapsto> channels_file_lines [(1, - 1), (1, 2)]]\<rparr>
     (ChannelsFile ''868'' 8 0 CHR ''S'') []
   = (Inr [- 1, 0, 0], [ChannelsFile ''868'' 8 0 CHR ''S''])
   \<and> spec_lowest_barrier_info [(1, - 1), (1, 2)] = [2, 0, 0]"
  by (simp add: load_lowest_barrier_info_def channels_file_lines_def item_def set_item_def
      position_def spec_lowest_barrier_info_def)

lemma barrier_positions_loop_length:
  "barrier_positions_loop channel_lines barrier_positions = Inr r \<Longrightarrow> length r = length barrier_positions"
proof (induction channel_lines barrier_positions rule: barrier_positions_loop.induct)
  case (4 group_id barrier_position channel_lines barrier_positions)
  then show ?case
    by (auto simp add: Let_def item_def set_item_def split: sum.splits if_splits option.splits)
qed simp_all

lemma load_lowest_barrier_info_length:
  "load_lowest_barrier_info fs p opened = (Inr r, opened') \<Longrightarrow> length r = 3"
  by (auto simp add: load_lowest_barrier_info_def split: option.splits dest: barrier_positions_loop_length)

lemma barrier_positions_loop_error:
  "barrier_positions_loop channel_lines barrier_positions = Inl e \<Longrightarrow> e = IndexError \<or> e = ValueError"
proof (induction channel_lines barrier_positions rule: barrier_positions_loop.induct)
  case (4 group_id barrier_position channel_lines barrier_positions)
  then show ?case
    by (auto simp add: Let_def item_def set_item_def split: sum.splits if_splits option.splits)
qed simp_all

lemma load_lowest_barrier_info_error:
  "fst (load_lowest_barrier_info fs p opened) = Inl e \<Longrightarrow>
   e = FileNotFoundError \<or> e = IndexError \<or> e = ValueError"
  by (auto simp add: load_lowest_barrier_info_def split: option.splits dest: barrier_positions_loop_error)

subsection \<open>Interpolation from the reference states\<close>

text \<open>
  Claim C5. A linear interpolation between \<open>(x1, y1)\<close> and \<open>(x2, y2)\<close> returns
  \<open>(y2 - y1) / (x2 - x1) * (x - x1) + y1\<close>, and raises ZeroDivisionError when \<open>x1 = x2\<close>. The
  planar interpolation returns the linear interpolation along \<open>J\<close> at the lower \<open>K\<close> node
  plus the linear interpolation along \<open>K\<close> at the lower \<open>J\<close> node minus the value at the base
  corner; for the corners \<open>(0, 0, 10)\<close>, \<open>(10, 0, 30)\<close>, \<open>(0, 10, 20)\<close> and the query
  \<open>(5, 5)\<close> it returns 25.
\<close>

theorem linear_interpolation_2d_planar:
  "linear_interpolation_1d [x1, y1] [x2, y2] query_x =
     (if x2 = x1 then Inl ZeroDivisionError
      else Inr ((y2 - y1) / (x2 - x1) * (query_x - x1) + y1))
   \<and> linear_interpolation_2d [J_low, K_low, z1] [J_high, K2, z2] [J3, K_high, z3] [J, K] =
     (if J_high = J_low \<or> K_high = K_low then Inl ZeroDivisionError
      else Inr (((z2 - z1) / (J_high - J_low) * (J - J_low) + z1)
              + ((z3 - z1) / (K_high - K_low) * (K - K_low) + z1)
              - z1))
   \<and> linear_interpolation_2d [J_low, K_low, z1] [J_high, K2, z2] [J3, K_high, z3] [J, K] =
     err_bind (linear_interpolation_1d [J_low, z1] [J_high, z2] J) (\<lambda>interp1.
     err_bind (linear_interpolation_1d [K_low, z1] [K_high, z3] K) (\<lambda>interp2.
       Inr (interp1 + interp2 - z1)))
   \<and> linear_interpolation_2d [0, 0, 10] [10, 0, 30] [0, 10, 20] [5, 5] = Inr 25"
  by (simp add: linear_interpolation_2d_def linear_interpolation_1d_def err_bind_def item_def
      position_def slice_def)

lemma interpolate_known_2x2:
  assumes "J_high \<noteq> J_low" and "K_high \<noteq> K_low"
  shows "interpolate_known [J_low, J_high] [K_low, K_high]
           [[[a0, a1, a2], [c0, c1, c2]], [[d0, d1, d2], x]] J K =
         Inr [planar J_low J_high K_low K_high J K a0 d0 c0,
              planar J_low J_high K_low K_high J K a1 d1 c1,
              planar J_low J_high K_low K_high J K a2 d2 c2]"
  using assms
  by (simp add: interpolate_known_def interpolate_channel_def item3_def err_bind_def item_def
      position_def linear_interpolation_2d_def linear_interpolation_1d_def slice_def planar_def
      upt_rec)

lemma length3E:
  assumes "length xs = 3"
  obtains x0 x1 x2 where "xs = [x0, x1, x2]"
  using assms by (auto simp add: length_Suc_conv numeral_3_eq_3)

lemma get_symmetry_letter_error: "get_symmetry_letter symmetry = Inl e \<Longrightarrow> e = WrongSymmetryCode"
  by (simp add: get_symmetry_letter_def split: if_splits)

lemma load_known_wrong_symmetry:
  "get_symmetry_letter symmetry = Inl e \<Longrightarrow>
   load_known fs m (J1 # Js) (K1 # Ks) symmetry opened = (Inl e, opened)"
  by (simp add: get_channels_file_path_def err_bind_def)

lemma load_known_2x2:
  assumes "get_symmetry_letter symmetry = Inr l"
  shows "load_known fs m [J1, J2] [K1, K2] symmetry opened =
    (case fst (load_lowest_barrier_info fs (ChannelsFile m J1 K1 l) []) of
       Inl e \<Rightarrow> (Inl e, opened @ [ChannelsFile m J1 K1 l])
     | Inr b00 \<Rightarrow>
      (case fst (load_lowest_barrier_info fs (ChannelsFile m J1 K2 l) []) of
         Inl e \<Rightarrow> (Inl e, opened @ [ChannelsFile m J1 K1 l, ChannelsFile m J1 K2 l])
       | Inr b01 \<Rightarrow>
        (case fst (load_lowest_barrier_info fs (ChannelsFile m J2 K1 l) []) of
           Inl e \<Rightarrow> (Inl e, opened @ [ChannelsFile m J1 K1 l, ChannelsFile m J1 K2 l,
                                      ChannelsFile m J2 K1 l])
         | Inr b10 \<Rightarrow>
          (case fst (load_lowest_barrier_info fs (ChannelsFile m J2 K2 l) []) of
             Inl e \<Rightarrow> (Inl e, opened @ [ChannelsFile m J1 K1 l, ChannelsFile m J1 K2 l,
                                        ChannelsFile m J2 K1 l, ChannelsFile m J2 K2 l])
           | Inr b11 \<Rightarrow> (Inr [[b00, b01], [b10, b11]],
                         opened @ [ChannelsFile m J1 K1 l, ChannelsFile m J1 K2 l,
                                   ChannelsFile m J2 K1 l, ChannelsFile m J2 K2 l])))))"
  by (simp add: get_channels_file_path_def err_bind_def assms load_lowest_barrier_info_def
      split: option.splits sum.splits)

lemma load_known_2x2_cases:
  assumes l: "get_symmetry_letter symmetry = Inr l"
  obtains
    (load_error) e opened' where
      "load_known fs m [J1, J2] [K1, K2] symmetry opened = (Inl e, opened')"
      and "e = FileNotFoundError \<or> e = IndexError \<or> e = ValueError"
  | (loaded) b00 b01 b10 b11 where
      "fst (load_lowest_barrier_info fs (ChannelsFile m J1 K1 l) []) = Inr b00"
      and "fst (load_lowest_barrier_info fs (ChannelsFile m J1 K2 l) []) = Inr b01"
      and "fst (load_lowest_barrier_info fs (ChannelsFile m J2 K1 l) []) = Inr b10"
      and "fst (load_lowest_barrier_info fs (ChannelsFile m J2 K2 l) []) = Inr b11"
      and "load_known fs m [J1, J2] [K1, K2] symmetry opened =
             (Inr [[b00, b01], [b10, b11]],
              opened @ [ChannelsFile m J1 K1 l, ChannelsFile m J1 K2 l,
                        ChannelsFile m J2 K1 l, ChannelsFile m J2 K2 l])"
proof -
  let ?R = "\<lambda>Jn Kn. fst (load_lowest_barrier_info fs (ChannelsFile m Jn Kn l) [])"
  note known = load_known_2x2 [OF l, of fs m J1 J2 K1 K2 opened]
  note err = load_lowest_barrier_info_error [of fs _ "[]"]
  show ?thesis
  proof (cases "?R J1 K1")
    case (Inl e)
    with known err [OF Inl] show ?thesis by (intro load_error [of e]) simp_all
  next
    case b00: (Inr b00)
    show ?thesis
    proof (cases "?R J1 K2")
      case (Inl e)
      with known b00 err [OF Inl] show ?thesis by (intro load_error [of e]) simp_all
    next
      case b01: (Inr b01)
      show ?thesis
      proof (cases "?R J2 K1")
        case (Inl e)
        with known b00 b01 err [OF Inl] show ?thesis by (intro load_error [of e]) simp_all
      next
        case b10: (Inr b10)
        show ?thesis
        proof (cases "?R J2 K2")
          case (Inl e)
          with known b00 b01 b10 err [OF Inl] show ?thesis by (intro load_error [of e]) simp_all
        next
          case b11: (Inr b11)
          with known b00 b01 b10 show ?thesis by (intro loaded [of b00 b01 b10 b11]) simp_all
        qed
      qed
    qed
  qed
qed

lemma interpolate_barrier_positions_JK_loaded:
  assumes Js: "select_interpolating_Js J = Inr [J_low, J_high]"
    and Ks: "select_interpolating_Ks J_low K = Inr [K_low, K_high]"
    and nodes: "J_high \<noteq> J_low" "K_high \<noteq> K_low"
    and l: "get_symmetry_letter symmetry = Inr l"
    and R: "fst (load_lowest_barrier_info fs (ChannelsFile molecule J_low K_low l) []) = Inr b00"
      "fst (load_lowest_barrier_info fs (ChannelsFile molecule J_low K_high l) []) = Inr b01"
      "fst (load_lowest_barrier_info fs (ChannelsFile molecule J_high K_low l) []) = Inr b10"
      "fst (load_lowest_barrier_info fs (ChannelsFile molecule J_high K_high l) []) = Inr b11"
  shows "interpolate_barrier_positions_JK fs molecule J K symmetry opened =
        (Inr [planar J_low J_high K_low K_high J K (b00 ! 0) (b10 ! 0) (b01 ! 0),
              planar J_low J_high K_low K_high J K (b00 ! 1) (b10 ! 1) (b01 ! 1),
              planar J_low J_high K_low K_high J K (b00 ! 2) (b10 ! 2) (b01 ! 2)],
         opened @ [ChannelsFile molecule J_low K_low l, ChannelsFile molecule J_low K_high l,
                   ChannelsFile molecule J_high K_low l, ChannelsFile molecule J_high K_high l])"
proof -
  have item0: "item [J_low, J_high] 0 = Inr J_low"
    by (simp add: item_def position_def)
  have known: "load_known fs molecule [J_low, J_high] [K_low, K_high] symmetry opened =
      (Inr [[b00, b01], [b10, b11]],
       opened @ [ChannelsFile molecule J_low K_low l, ChannelsFile molecule J_low K_high l,
                 ChannelsFile molecule J_high K_low l, ChannelsFile molecule J_high K_high l])"
    unfolding load_known_2x2 [OF l] R by simp
  have len: "length b00 = 3" "length b01 = 3" "length b10 = 3"
    using R(1-3) by (auto intro: load_lowest_barrier_info_length [of fs _ "[]"] simp add: prod_eq_iff)
  from len obtain a0 a1 a2 where a: "b00 = [a0, a1, a2]" by (auto elim: length3E)
  from len obtain c0 c1 c2 where c: "b01 = [c0, c1, c2]" by (auto elim: length3E)
  from len obtain d0 d1 d2 where d: "b10 = [d0, d1, d2]" by (auto elim: length3E)
  have unfold: "interpolate_barrier_positions_JK fs molecule J K symmetry opened =
      (case load_known fs molecule [J_low, J_high] [K_low, K_high] symmetry opened of
         (Inl e, opened') \<Rightarrow> (Inl e, opened')
       | (Inr known, opened') \<Rightarrow>
           (interpolate_known [J_low, J_high] [K_low, K_high] known J K, opened'))"
    by (simp add: interpolate_barrier_positions_JK_def Js Ks item0 err_bind_def)
  show ?thesis
    unfolding unfold known using nodes by (simp add: a c d interpolate_known_2x2)
qed

lemma interpolate_barrier_positions_JK_cases:
  fixes fs molecule J K symmetry opened
  defines "result \<equiv> interpolate_barrier_positions_JK fs molecule J K symmetry opened"
  obtains
    (overflow) "result = (Inl OverflowError, opened)"
  | (wrong_symmetry) "result = (Inl WrongSymmetryCode, opened)"
  | (load_error) e opened' where "result = (Inl e, opened')"
      and "e = FileNotFoundError \<or> e = IndexError \<or> e = ValueError"
  | (loaded) J_low K_low l b00 b01 b10 b11 where
      "select_interpolating_Js J = Inr [J_low, J_low + 4]"
      and "select_interpolating_Ks J_low K = Inr [K_low, K_low + 2]"
      and "get_symmetry_letter symmetry = Inr l"
      and "fst (load_lowest_barrier_info fs (ChannelsFile molecule J_low K_low l) []) = Inr b00"
      and "fst (load_lowest_barrier_info fs (ChannelsFile molecule J_low (K_low + 2) l) []) = Inr b01"
      and "fst (load_lowest_barrier_info fs (ChannelsFile molecule (J_low + 4) K_low l) []) = Inr b10"
      and "fst (load_lowest_barrier_info fs (ChannelsFile molecule (J_low + 4) (K_low + 2) l) []) = Inr b11"
proof -
  obtain J_low where Js: "select_interpolating_Js J = Inr [J_low, J_low + 4]"
    and J4: "4 \<le> J_low" and J52: "J_low \<le> 52"
    using select_interpolating_Js_nodes [of J] by blast
  have item0: "item [J_low, J_low + 4] 0 = Inr J_low"
    by (simp add: item_def position_def)
  from select_interpolating_Ks_nodes [OF J4 J52, of K] show ?thesis
  proof (elim disjE exE)
    assume "select_interpolating_Ks J_low K = Inl OverflowError"
    then have "result = (Inl OverflowError, opened)"
      by (simp add: result_def interpolate_barrier_positions_JK_def Js item0 err_bind_def)
    then show ?thesis by (rule that(1))
  next
    fix K_low
    assume Ks: "select_interpolating_Ks J_low K = Inr [K_low, K_low + 2]"
    have unfold: "result =
      (case load_known fs molecule [J_low, J_low + 4] [K_low, K_low + 2] symmetry opened of
         (Inl e, opened') \<Rightarrow> (Inl e, opened')
       | (Inr known, opened') \<Rightarrow>
           (interpolate_known [J_low, J_low + 4] [K_low, K_low + 2] known J K, opened'))"
      by (simp add: result_def interpolate_barrier_positions_JK_def Js Ks item0 err_bind_def)
    show ?thesis
    proof (cases "get_symmetry_letter symmetry")
      case (Inl e)
      then have "e = WrongSymmetryCode" by (rule get_symmetry_letter_error)
      with Inl have "load_known fs molecule [J_low, J_low + 4] [K_low, K_low + 2] symmetry opened
          = (Inl WrongSymmetryCode, opened)"
        by (simp only: load_known_wrong_symmetry)
      then have "result = (Inl WrongSymmetryCode, opened)"
        unfolding unfold by simp
      then show ?thesis by (rule that(2))
    next
      case (Inr l)
      from Inr show ?thesis
      proof (cases rule: load_known_2x2_cases
          [where fs = fs and m = molecule and ?J1.0 = J_low and ?J2.0 = "J_low + 4"
             and ?K1.0 = K_low and ?K2.0 = "K_low + 2" and opened = opened])
        case (load_error e opened')
        then have "result = (Inl e, opened')" unfolding unfold by simp
        with load_error(2) show ?thesis by (intro that(3))
      next
        case R: (loaded b00 b01 b10 b11)
        with Js Ks Inr show ?thesis by (intro that(4))
      qed
    qed
  qed
qed

text \<open>
  Claim C9. For every query the bracket in \<open>J\<close> has width 4 and the bracket in \<open>K\<close>, computed
  from \<open>J_low\<close>, has width 2 whenever it is returned; a linear interpolation between two
  points divides by zero exactly when their abscissas are equal; hence
  \<open>interpolate_barrier_positions_JK\<close> never raises ZeroDivisionError.
\<close>

theorem interpolate_no_zero_division:
  "(\<exists>J_low J_high. select_interpolating_Js J = Inr [J_low, J_high] \<and> J_high - J_low = 4
      \<and> (select_interpolating_Ks J_low K = Inl OverflowError
          \<or> (\<exists>K_low K_high. select_interpolating_Ks J_low K = Inr [K_low, K_high]
                \<and> K_high - K_low = 2)))
   \<and> (linear_interpolation_1d [x1, y1] [x2, y2] query_x = Inl ZeroDivisionError \<longleftrightarrow> x1 = x2)
   \<and> fst (interpolate_barrier_positions_JK fs molecule J K symmetry opened) \<noteq> Inl ZeroDivisionError"
proof (intro conjI)
  obtain J_low where Js: "select_interpolating_Js J = Inr [J_low, J_low + 4]"
    and J4: "4 \<le> J_low" and J52: "J_low \<le> 52"
    using select_interpolating_Js_nodes [of J] by blast
  from select_interpolating_Ks_nodes [OF J4 J52, of K] Js
  show "\<exists>J_low J_high. select_interpolating_Js J = Inr [J_low, J_high] \<and> J_high - J_low = 4
      \<and> (select_interpolating_Ks J_low K = Inl OverflowError
          \<or> (\<exists>K_low K_high. select_interpolating_Ks J_low K = Inr [K_low, K_high]
                \<and> K_high - K_low = 2))"
    by auto
next
  show "linear_interpolation_1d [x1, y1] [x2, y2] query_x = Inl ZeroDivisionError \<longleftrightarrow> x1 = x2"
    by (auto simp add: linear_interpolation_1d_def err_bind_def item_def position_def)
next
  show "fst (interpolate_barrier_positions_JK fs molecule J K symmetry opened) \<noteq> Inl ZeroDivisionError"
  proof (cases rule: interpolate_barrier_positions_JK_cases [of fs molecule J K symmetry opened])
    case (loaded J_low K_low l b00 b01 b10 b11)
    then show ?thesis
      by (simp add: interpolate_barrier_positions_JK_loaded [where J_low = J_low and K_low = K_low])
  qed auto
qed

text \<open>
  Claim C3, amended. A call of \<open>interpolate_barrier_positions_JK\<close> that returns has opened
  four channels files, those of the corners \<open>(J_low, K_low)\<close>, \<open>(J_low, K_high)\<close>,
  \<open>(J_high, K_low)\<close> and \<open>(J_high, K_high)\<close>, in this order. The returned positions are
  computed from the first three: they are the same for every content of the file of
  \<open>(J_high, K_high)\<close> that loads without error. As stated the claim fails: the fourth corner
  is fetched, and the call fails when its file is missing.
\<close>

theorem interpolate_opens_four_corners:
  assumes run: "interpolate_barrier_positions_JK fs molecule J K symmetry opened
                  = (Inr barrier_positions, opened')"
  shows "\<exists>J_low J_high K_low K_high l.
     select_interpolating_Js J = Inr [J_low, J_high]
     \<and> select_interpolating_Ks J_low K = Inr [K_low, K_high]
     \<and> get_symmetry_letter symmetry = Inr l
     \<and> opened' = opened @ [ChannelsFile molecule J_low K_low l, ChannelsFile molecule J_low K_high l,
                           ChannelsFile molecule J_high K_low l, ChannelsFile molecule J_high K_high l]
     \<and> (\<forall>channel_lines lowest_barriers.
           barrier_positions_loop channel_lines [0, 0, 0] = Inr lowest_barriers \<longrightarrow>
           interpolate_barrier_positions_JK
             (fs\<lparr>channels_files :=
                   (channels_files fs)(ChannelsFile molecule J_high K_high l \<mapsto> channel_lines)\<rparr>)
             molecule J K symmetry opened
           = (Inr barrier_positions, opened'))"
proof (cases rule: interpolate_barrier_positions_JK_cases [of fs molecule J K symmetry opened])
  case (loaded J_low K_low l b00 b01 b10 b11)
  note here = interpolate_barrier_positions_JK_loaded
    [OF loaded(1,2) _ _ loaded(3-7), where opened = opened, simplified]
  have there: "interpolate_barrier_positions_JK
        (fs\<lparr>channels_files :=
              (channels_files fs)(ChannelsFile molecule (J_low + 4) (K_low + 2) l \<mapsto> channel_lines)\<rparr>)
        molecule J K symmetry opened
      = (Inr barrier_positions, opened')"
    if "barrier_positions_loop channel_lines [0, 0, 0] = Inr lowest_barriers"
    for channel_lines lowest_barriers
  proof -
    let ?fs = "fs\<lparr>channels_files :=
      (channels_files fs)(ChannelsFile molecule (J_low + 4) (K_low + 2) l \<mapsto> channel_lines)\<rparr>"
    have R: "fst (load_lowest_barrier_info ?fs (ChannelsFile molecule J_low K_low l) []) = Inr b00"
      "fst (load_lowest_barrier_info ?fs (ChannelsFile molecule J_low (K_low + 2) l) []) = Inr b01"
      "fst (load_lowest_barrier_info ?fs (ChannelsFile molecule (J_low + 4) K_low l) []) = Inr b10"
      "fst (load_lowest_barrier_info ?fs (ChannelsFile molecule (J_low + 4) (K_low + 2) l) [])
         = Inr lowest_barriers"
      using loaded(4-6) that by (simp_all add: load_lowest_barrier_info_def)
    show ?thesis
      using interpolate_barrier_positions_JK_loaded [OF loaded(1,2) _ _ loaded(3) R, where opened = opened]
        here run
      by simp
  qed
  from here run have "opened' = opened @ [ChannelsFile molecule J_low K_low l,
      ChannelsFile molecule J_low (K_low + 2) l, ChannelsFile molecule (J_low + 4) K_low l,
      ChannelsFile molecule (J_low + 4) (K_low + 2) l]"
    by simp
  with loaded(1-3) there show ?thesis by blast
qed (use run in auto)

lemma example_run:
  "interpolate_barrier_positions_JK
     \<lparr>loadtxt_files = Map.empty,
      channels_files = example_channels
        (ChannelsFile ''868'' 12 2 CHR ''S'' \<mapsto> [Tokens 1 7, Tokens 2 7, Tokens 3 7])\<rparr>
     ''868'' 10 0 0 []
   = (Inr [3, 7 / 2, 4],
      [ChannelsFile ''868'' 8 0 CHR ''S'', ChannelsFile ''868'' 8 2 CHR ''S'',
       ChannelsFile ''868'' 12 0 CHR ''S'', ChannelsFile ''868'' 12 2 CHR ''S''])"
  by code_simp

lemma example_run_missing:
  "interpolate_barrier_positions_JK
     \<lparr>loadtxt_files = Map.empty, channels_files = example_channels\<rparr> ''868'' 10 0 0 []
   = (Inl FileNotFoundError,
      [ChannelsFile ''868'' 8 0 CHR ''S'', ChannelsFile ''868'' 8 2 CHR ''S'',
       ChannelsFile ''868'' 12 0 CHR ''S'', ChannelsFile ''868'' 12 2 CHR ''S''])"
  by code_simp

theorem interpolate_opens_four_corners_witness:
  "interpolate_barrier_positions_JK
     \<lparr>loadtxt_files = Map.empty,
      channels_files = example_channels
        (ChannelsFile ''868'' 12 2 CHR ''S'' \<mapsto> [Tokens 1 9, Tokens 2 9, Tokens 3 9])\<rparr>
     ''868'' 10 0 0 []
   = (Inr [3, 7 / 2, 4],
      [ChannelsFile ''868'' 8 0 CHR ''S'', ChannelsFile ''868'' 8 2 CHR ''S'',
       ChannelsFile ''868'' 12 0 CHR ''S'', ChannelsFile ''868'' 12 2 CHR ''S''])"
proof -
  let ?fs = "\<lparr>loadtxt_files = Map.empty,
      channels_files = example_channels
        (ChannelsFile ''868'' 12 2 CHR ''S'' \<mapsto> [Tokens 1 7, Tokens 2 7, Tokens 3 7])\<rparr>"
  from interpolate_opens_four_corners [OF example_run]
  obtain J_low J_high K_low K_high l where
    Js: "select_interpolating_Js 10 = Inr [J_low, J_high]"
    and Ks: "select_interpolating_Ks J_low 0 = Inr [K_low, K_high]"
    and l: "get_symmetry_letter 0 = Inr l"
    and independent: "\<And>channel_lines lowest_barriers.
      barrier_positions_loop channel_lines [0, 0, 0] = Inr lowest_barriers \<Longrightarrow>
      interpolate_barrier_positions_JK
        (?fs\<lparr>channels_files :=
           (channels_files ?fs)(ChannelsFile ''868'' J_high K_high l \<mapsto> channel_lines)\<rparr>)
        ''868'' 10 0 0 []
      = (Inr [3, 7 / 2, 4],
         [ChannelsFile ''868'' 8 0 CHR ''S'', ChannelsFile ''868'' 8 2 CHR ''S'',
          ChannelsFile ''868'' 12 0 CHR ''S'', ChannelsFile ''868'' 12 2 CHR ''S''])"
    by blast
  have "select_interpolating_Js 10 = Inr [8, 12]"
    by (simp add: select_interpolating_Js_def int_truediv_def round_binary64_def)
  with Js have J: "J_low = 8" "J_high = 12" by simp_all
  have "select_interpolating_Ks 8 0 = Inr [0, 2]"
    by (simp add: select_interpolating_Ks_def int_truediv_def round_binary64_def)
  with Ks J have K: "K_low = 0" "K_high = 2" by simp_all
  from l have l': "l = CHR ''S''" by (simp add: get_symmetry_letter_def)
  have "barrier_positions_loop [Tokens 1 9, Tokens 2 9, Tokens 3 9] [0, 0, 0] = Inr [9, 9, 9]"
    by (simp add: item_def set_item_def position_def)
  from independent [OF this] show ?thesis
    by (simp add: J K l')
qed

theorem interpolate_fourth_corner_counterexample:
  "interpolate_barrier_positions_JK
     \<lparr>loadtxt_files = Map.empty,
      channels_files = example_channels
        (ChannelsFile ''868'' 12 2 CHR ''S'' \<mapsto> [Tokens 1 7, Tokens 2 7, Tokens 3 7])\<rparr>
     ''868'' 10 0 0 []
   = (Inr [3, 7 / 2, 4],
      [ChannelsFile ''868'' 8 0 CHR ''S'', ChannelsFile ''868'' 8 2 CHR ''S'',
       ChannelsFile ''868'' 12 0 CHR ''S'', ChannelsFile ''868'' 12 2 CHR ''S''])
   \<and> interpolate_barrier_positions_JK
     \<lparr>loadtxt_files = Map.empty, channels_files = example_channels\<rparr> ''868'' 10 0 0 []
   = (Inl FileNotFoundError,
      [ChannelsFile ''868'' 8 0 CHR ''S'', ChannelsFile ''868'' 8 2 CHR ''S'',
       ChannelsFile ''868'' 12 0 CHR ''S'', ChannelsFile ''868'' 12 2 CHR ''S''])"
  using example_run example_run_missing by (rule conjI)

subsection \<open>Peaks and windows\<close>

lemma skip_equal_le: "i_ahead \<le> length x - 1 \<Longrightarrow> skip_equal x i i_ahead \<le> length x - 1"
proof (induction x i i_ahead rule: skip_equal.induct)
  case (1 x i i_ahead)
  show ?case
  proof (cases "i_ahead < length x - 1 \<and> x ! i_ahead = x ! i")
    case True
    then have "skip_equal x i i_ahead = skip_equal x i (i_ahead + 1)"
      by (subst skip_equal.simps) simp
    with True "1.IH" show ?thesis by simp
  next
    case False
    then have "skip_equal x i i_ahead = i_ahead"
      by (subst skip_equal.simps) auto
    with "1.prems" show ?thesis by simp
  qed
qed

lemma local_maxima_from_bounds:
  "p \<in> set (local_maxima_from x i) \<Longrightarrow> i \<le> p \<and> p + 1 < length x"
proof (induction x i rule: local_maxima_from.induct)
  case (1 x i)
  let ?a = "skip_equal x i (i + 1)"
  show ?case
  proof (cases "i < length x - 1")
    case False
    then have "local_maxima_from x i = []"
      by (subst local_maxima_from.simps) simp
    with "1.prems" show ?thesis by simp
  next
    case in_range: True
    have a_ge: "i + 1 \<le> ?a" by (rule skip_equal_ge)
    have a_le: "?a \<le> length x - 1" using in_range by (intro skip_equal_le) simp
    show ?thesis
    proof (cases "x ! (i - 1) < x ! i")
      case rising: True
      show ?thesis
      proof (cases "x ! ?a < x ! i")
        case True
        with in_range rising have unfold:
          "local_maxima_from x i = ((i + (?a - 1)) div 2) # local_maxima_from x (?a + 1)"
          by (subst local_maxima_from.simps) simp
        from "1.prems" unfold consider "p = (i + (?a - 1)) div 2" | "p \<in> set (local_maxima_from x (?a + 1))"
          by auto
        then show ?thesis
        proof cases
          case 1
          with a_ge a_le in_range show ?thesis by auto
        next
          case 2
          with "1.IH"(1) [OF in_range rising True] a_ge show ?thesis by simp
        qed
      next
        case False
        with in_range rising have "local_maxima_from x i = local_maxima_from x (i + 1)"
          by (subst local_maxima_from.simps) simp
        with "1.prems" "1.IH"(2) [OF in_range rising False] show ?thesis by simp
      qed
    next
      case False
      with in_range have "local_maxima_from x i = local_maxima_from x (i + 1)"
        by (subst local_maxima_from.simps) simp
      with "1.prems" "1.IH"(3) [OF in_range False] show ?thesis by simp
    qed
  qed
qed

lemma find_peaks_bounds:
  assumes "p \<in> set (find_peaks x hmin hmax)"
  shows "1 \<le> p" and "p + 2 \<le> length x" and "hmin \<le> x ! p" and "x ! p \<le> hmax"
  using assms local_maxima_from_bounds [of p x 1]
  by (auto simp add: find_peaks_def local_maxima_1d_def)

lemma window3:
  assumes "1 \<le> p" and "p + 2 \<le> length xs"
  shows "slice xs (int p - 1) (int p + 2) = [xs ! (p - 1), xs ! p, xs ! (p + 1)]"
proof -
  have l: "min (int p - 1) (int (length xs)) = int p - 1" using assms by simp
  have h: "min (int p + 2) (int (length xs)) = int p + 2" using assms by simp
  have "nat (int p - 1) = p - 1" by simp
  then have "slice xs (int p - 1) (int p + 2) = take 3 (drop (p - 1) xs)"
    using assms by (simp add: slice_def Let_def l h)
  also have "drop (p - 1) xs = xs ! (p - 1) # drop p xs"
    using assms Cons_nth_drop_Suc [of "p - 1" xs] by simp
  also have "drop p xs = xs ! p # drop (p + 1) xs"
    using assms Cons_nth_drop_Suc [of p xs] by simp
  also have "drop (p + 1) xs = xs ! (p + 1) # drop (p + 2) xs"
    using assms Cons_nth_drop_Suc [of "p + 1" xs] by simp
  finally show ?thesis by (simp add: numeral_3_eq_3)
qed

lemma find_peaks_example: "find_peaks [0, 1, 5, 1, 0] (- 5000) 5000 = [2]"
  by code_simp

lemma loadtxt_column_rows: "length rows \<noteq> 1 \<Longrightarrow> loadtxt_column rows = Array1 rows"
  by (cases rows rule: list.exhaust; simp add: loadtxt_column_def split: list.splits)

lemma find_barrier_first_peak:
  assumes energies_file: "loadtxt_files fs (EnergiesFile root_path J K symm) = Some energies"
    and peaks: "find_peaks energies (- 5000) 5000 = p # ps"
  shows "find_barrier fit fs root_path J K symm (Array1 grid) opened =
           (interpolate_energies_2d fit (slice grid (int p - 1) (int p + 2))
              (slice energies (int p - 1) (int p + 2)),
            opened @ [EnergiesFile root_path J K symm])"
proof -
  have "p \<in> set (find_peaks energies (- 5000) 5000)" using peaks by simp
  then have "p + 2 \<le> length energies" by (rule find_peaks_bounds)
  then have "loadtxt_column energies = Array1 energies" by (intro loadtxt_column_rows) simp
  then show ?thesis by (simp add: find_barrier_def energies_file peaks)
qed



text \<open>
  Claim C10, amended. When peak detection finds a peak within the band on an energy curve,
  the first peak index \<open>p\<close> satisfies \<open>1 \<le> p\<close> and \<open>p + 2 \<le> length energies\<close>, so the window of
  the energies has exactly 3 elements. When moreover the grid has a sample for every
  sample of the curve, the window of the grid has exactly 3 elements too, and the fit in
  \<open>find_barrier\<close> is applied to these two windows of 3 elements. As stated the claim
  fails: the grid is read from another file, and on a grid shorter than the curve its
  window is shorter than 3.
\<close>

theorem find_barrier_window:
  assumes peaks: "find_peaks energies (- 5000) 5000 = p # ps"
  shows "1 \<le> p \<and> p + 2 \<le> length energies
    \<and> slice energies (int p - 1) (int p + 2) = [energies ! (p - 1), energies ! p, energies ! (p + 1)]
    \<and> (length energies \<le> length grid \<longrightarrow>
         slice grid (int p - 1) (int p + 2) = [grid ! (p - 1), grid ! p, grid ! (p + 1)]
         \<and> (loadtxt_files fs (EnergiesFile root_path J K symm) = Some energies \<longrightarrow>
              find_barrier fit fs root_path J K symm (Array1 grid) opened =
                (interpolate_energies_2d fit
                   [grid ! (p - 1), grid ! p, grid ! (p + 1)]
                   [energies ! (p - 1), energies ! p, energies ! (p + 1)],
                 opened @ [EnergiesFile root_path J K symm])))"
proof -
  have "p \<in> set (find_peaks energies (- 5000) 5000)" using peaks by simp
  then have p1: "1 \<le> p" and p2: "p + 2 \<le> length energies"
    by (rule find_peaks_bounds)+
  have e: "slice energies (int p - 1) (int p + 2) = [energies ! (p - 1), energies ! p, energies ! (p + 1)]"
    using p1 p2 by (rule window3)
  have g: "slice grid (int p - 1) (int p + 2) = [grid ! (p - 1), grid ! p, grid ! (p + 1)]"
    if "length energies \<le> length grid"
    using p1 p2 that by (intro window3) simp_all
  from p1 p2 e g show ?thesis
    by (simp add: find_barrier_first_peak [OF _ peaks])
qed

theorem find_barrier_window_witness:
  "slice [0, 1, 5, 1, 0 :: real] (int 2 - 1) (int 2 + 2) = [1, 5, 1]
   \<and> slice [1, 2, 3, 4, 5 :: real] (int 2 - 1) (int 2 + 2) = [2, 3, 4]
   \<and> find_barrier example_fit example_direct_files ''root'' 0 0 0 (Array1 [1, 2, 3, 4, 5]) [] =
       (interpolate_energies_2d example_fit [2, 3, 4] [1, 5, 1], [EnergiesFile ''root'' 0 0 0])"
  using find_barrier_window [OF find_peaks_example, of "[1, 2, 3, 4, 5]" example_direct_files
      "''root''" 0 0 0 example_fit "[]"]
  by (simp add: example_direct_files_def)

theorem find_barrier_short_grid_counterexample:
  "find_peaks [0, 1, 5, 1, 0] (- 5000) 5000 = [2]
   \<and> slice [0, 1, 5, 1, 0 :: real] (int 2 - 1) (int 2 + 2) = [1, 5, 1]
   \<and> slice [1, 2 :: real] (int 2 - 1) (int 2 + 2) = [2]"
  by (simp add: find_peaks_example slice_def)



text \<open>
  Claim C8. When the energies file of the requested state does not exist,
  \<open>find_barrier\<close> returns 0 and raises nothing; no file is opened.
\<close>

theorem find_barrier_missing_file:
  "loadtxt_files fs (EnergiesFile root_path J K symm) = None \<Longrightarrow>
   find_barrier fit fs root_path J K symm grid opened = (Inr (Finite 0), opened)"
  by (simp add: find_barrier_def)

theorem find_barrier_missing_file_witness:
  "find_barrier example_fit \<lparr>loadtxt_files = Map.empty, channels_files = Map.empty\<rparr> ''root'' 4 2 0
     (Array1 [1, 2, 3, 4, 5]) [] = (Inr (Finite 0), [])"
  by (rule find_barrier_missing_file) simp

subsection \<open>The barrier field\<close>

lemma field_invariant_zeros:
  "field_invariant Js Ks (replicate (length Ks) (replicate (length Js) (Finite 0)))"
  by (simp add: field_invariant_def)

lemma field_invariant_set_cell:
  assumes inv: "field_invariant Js Ks barriers"
    and K: "K_ind < length Ks" and J: "J_ind < length Js"
    and physical: "\<not> Ks ! K_ind > Js ! J_ind"
  shows "field_invariant Js Ks (set_cell barriers K_ind J_ind v)"
proof -
  from inv have len: "length barriers = length Ks"
    and rows: "\<And>row. row \<in> set barriers \<Longrightarrow> length row = length Js"
    and zeros: "\<And>k j. k < length Ks \<Longrightarrow> j < length Js \<Longrightarrow> Ks ! k > Js ! j \<Longrightarrow> barriers ! k ! j = Finite 0"
    by (auto simp add: field_invariant_def)
  let ?b = "set_cell barriers K_ind J_ind v"
  have len': "length ?b = length Ks" using len by (simp add: set_cell_def)
  have rows': "length row = length Js" if "row \<in> set ?b" for row
  proof -
    from that have "row = (barriers ! K_ind)[J_ind := v] \<or> row \<in> set barriers"
      unfolding set_cell_def by (auto dest: set_update_subset_insert [THEN subsetD])
    moreover have "barriers ! K_ind \<in> set barriers" using K len by simp
    ultimately show ?thesis using rows by auto
  qed
  have zeros': "?b ! k ! j = Finite 0" if "k < length Ks" "j < length Js" "Ks ! k > Js ! j" for k j
  proof (cases "k = K_ind")
    case True
    with that physical have "j \<noteq> J_ind" by auto
    with True K len show ?thesis
      using zeros [OF that] by (simp add: set_cell_def)
  next
    case False
    then show ?thesis using zeros [OF that] by (simp add: set_cell_def)
  qed
  from len' rows' zeros' show ?thesis by (simp add: field_invariant_def)
qed

lemma main_cell_skips:
  "K > J \<Longrightarrow> main_cell fit fs root_path molecule symm pathway grid J_ind J K_ind K st = Inr st"
  by (cases st) (simp add: main_cell_def)

lemma main_cell_result:
  assumes "main_cell fit fs root_path molecule symm pathway grid J_ind J K_ind K (barriers, opened)
             = Inr (barriers', opened')"
  shows "barriers' = barriers \<or> (\<not> K > J \<and> (\<exists>v. barriers' = set_cell barriers K_ind J_ind v))"
  using assms
  by (auto simp add: main_cell_def Let_def split: if_splits prod.splits sum.splits)

lemma main_cell_invariant:
  assumes "main_cell fit fs root_path molecule symm pathway grid J_ind (Js ! J_ind) K_ind (Ks ! K_ind) st
             = Inr st'"
    and "K_ind < length Ks" and "J_ind < length Js"
    and "field_invariant Js Ks (fst st)"
  shows "field_invariant Js Ks (fst st')"
proof -
  obtain barriers opened barriers' opened' where st: "st = (barriers, opened)" "st' = (barriers', opened')"
    by (cases st, cases st') blast
  from main_cell_result [OF assms(1) [unfolded st]] assms(2-4) show ?thesis
    by (auto simp add: st field_invariant_set_cell)
qed

lemma main_K_loop_invariant:
  assumes "main_K_loop fit fs root_path molecule symm pathway grid J_ind (Js ! J_ind) cells st = Inr st'"
    and "\<forall>(K_ind, K) \<in> set cells. K_ind < length Ks \<and> K = Ks ! K_ind"
    and "J_ind < length Js"
    and "field_invariant Js Ks (fst st)"
  shows "field_invariant Js Ks (fst st')"
  using assms
proof (induction cells arbitrary: st)
  case Nil
  then show ?case by simp
next
  case (Cons c cells)
  obtain K_ind K where c: "c = (K_ind, K)" by (cases c)
  from Cons.prems(2) c have K: "K_ind < length Ks" "K = Ks ! K_ind" by simp_all
  from Cons.prems(1) c obtain st1 where
    step: "main_cell fit fs root_path molecule symm pathway grid J_ind (Js ! J_ind) K_ind K st = Inr st1"
    and rest: "main_K_loop fit fs root_path molecule symm pathway grid J_ind (Js ! J_ind) cells st1 = Inr st'"
    by (auto split: sum.splits)
  from step K Cons.prems(3,4) have "field_invariant Js Ks (fst st1)"
    by (auto intro: main_cell_invariant)
  with Cons.IH [OF rest] Cons.prems(2,3) show ?case by simp
qed

lemma main_J_loop_invariant:
  assumes "main_J_loop fit fs root_path molecule symm pathway grid columns cells st = Inr st'"
    and "\<forall>(J_ind, J) \<in> set columns. J_ind < length Js \<and> J = Js ! J_ind"
    and "\<forall>(K_ind, K) \<in> set cells. K_ind < length Ks \<and> K = Ks ! K_ind"
    and "field_invariant Js Ks (fst st)"
  shows "field_invariant Js Ks (fst st')"
  using assms
proof (induction columns arbitrary: st)
  case Nil
  then show ?case by simp
next
  case (Cons c columns)
  obtain J_ind J where c: "c = (J_ind, J)" by (cases c)
  from Cons.prems(2) c have J: "J_ind < length Js" "J = Js ! J_ind" by simp_all
  from Cons.prems(1) c obtain st1 where
    step: "main_K_loop fit fs root_path molecule symm pathway grid J_ind J cells st = Inr st1"
    and rest: "main_J_loop fit fs root_path molecule symm pathway grid columns cells st1 = Inr st'"
    by (auto split: sum.splits)
  from step J Cons.prems(3,4) have "field_invariant Js Ks (fst st1)"
    by (auto intro: main_K_loop_invariant)
  with Cons.IH [OF rest] Cons.prems(2,3) show ?case by simp
qed

lemma enumerate_indices:
  "\<forall>(i, x) \<in> set (zip [0..<length xs] xs). i < length xs \<and> x = xs ! i"
  by (auto simp add: in_set_zip)

text \<open>
  Claim C7. In the matrix that \<open>main_with\<close> returns, every cell of a state with \<open>K > J\<close>
  holds 0, for every molecule, symmetry and pathway, and whatever the polynomial fit of
  the library returns or raises; the loop body does nothing for such a cell: it returns
  the matrix and the list of opened files as they are.
\<close>

theorem main_nonphysical_cells:
  assumes run: "main_with fit fs root_path molecule symm pathway Js Ks = Inr (barriers, opened)"
    and K: "K_ind < length Ks" and J: "J_ind < length Js"
    and nonphysical: "Ks ! K_ind > Js ! J_ind"
  shows "barriers ! K_ind ! J_ind = Finite 0
    \<and> main_cell fit fs root_path molecule symm pathway grid J_ind (Js ! J_ind) K_ind (Ks ! K_ind) st = Inr st"
proof
  from run obtain grid0 opened0 where
    loops: "main_J_loop fit fs root_path molecule symm pathway grid0
              (zip [0..<length Js] Js) (zip [0..<length Ks] Ks)
              (replicate (length Ks) (replicate (length Js) (Finite 0)), opened0) = Inr (barriers, opened)"
    by (auto simp add: main_with_def Let_def split: prod.splits sum.splits)
  have "field_invariant Js Ks (fst (barriers, opened))"
    using loops enumerate_indices [of Js] enumerate_indices [of Ks]
    by (rule main_J_loop_invariant) (simp add: field_invariant_zeros)
  with K J nonphysical show "barriers ! K_ind ! J_ind = Finite 0"
    by (simp add: field_invariant_def)
next
  from nonphysical
  show "main_cell fit fs root_path molecule symm pathway grid J_ind (Js ! J_ind) K_ind (Ks ! K_ind) st = Inr st"
    by (rule main_cell_skips)
qed

lemma example_direct_run:
  "main_with example_fit example_direct_files ''root'' ''666'' 0 ''S'' [0, 2] [0, 2] =
     Inr ([[Finite 3, Finite 0], [Finite 0, Finite 0]],
          [GridFile ''root'', EnergiesFile ''root'' 0 0 0])"
  by code_simp

theorem main_nonphysical_cells_witness:
  "[[Finite 3, Finite 0], [Finite 0, Finite 0]] ! 1 ! 0 = Finite 0
   \<and> main_cell example_fit example_direct_files ''root'' ''666'' 0 ''S'' (Array1 [1, 2, 3, 4, 5])
       0 ([0, 2] ! 0) 1 ([0, 2] ! 1) ([[Finite 3, Finite 0], [Finite 0, Finite 0]], [])
       = Inr ([[Finite 3, Finite 0], [Finite 0, Finite 0]], [])"
  by (rule main_nonphysical_cells [OF example_direct_run]) simp_all

end
